theory Spec2Isabelle
  imports Complex_Main "HOL-Library.Multiset" "HOL-Library.Log_Nat"
begin

section \<open>Python floats and SQLite \<open>REAL\<close> values\<close>

text \<open>
  The amounts and balances of \<open>new.py\<close> are Python \<open>float\<close>s, stored in SQLite columns
  of type \<open>REAL\<close>: IEEE 754 binary64 numbers. A value is a finite number, one of the
  two infinities or NaN. \<open>Finite x\<close> stands for the double whose value is \<open>x\<close>; the two
  signed zeros, which compare equal, are not told apart.
\<close>

datatype double = Finite real | PosInf | NegInf | NaN

text \<open>\<open>scale2 k\<close> is \<open>2\<close> to the power \<open>k\<close>, for an integer \<open>k\<close> of either sign.\<close>

definition scale2 :: "int \<Rightarrow> real" where
  "scale2 k = (if 0 \<le> k then 2 ^ nat k else 1 / 2 ^ nat (- k))"

text \<open>
  The binary exponent of \<open>x \<noteq> 0\<close>: the integer \<open>e\<close> with \<open>2 ^ e \<le> \<bar>x\<bar> < 2 ^ (e + 1)\<close>,
  computed from the number of bits of \<open>\<lfloor>\<bar>x\<bar>\<rfloor>\<close>, or of \<open>\<lceil>1 / \<bar>x\<bar>\<rceil> - 1\<close> when \<open>\<bar>x\<bar> < 1\<close>.
\<close>

definition exponent_of :: "real \<Rightarrow> int" where
  "exponent_of x =
     (if 1 \<le> \<bar>x\<bar> then int (floorlog 2 (nat \<lfloor>\<bar>x\<bar>\<rfloor>)) - 1
      else - int (floorlog 2 (nat (\<lceil>1 / \<bar>x\<bar>\<rceil> - 1))))"

definition round_half_even :: "real \<Rightarrow> int" where
  "round_half_even y =
     (let n = \<lfloor>y\<rfloor>; r = y - of_int n in
      if r < 1 / 2 then n else if 1 / 2 < r then n + 1 else if even n then n else n + 1)"

text \<open>
  Rounding of an exact result to binary64, to nearest with ties to even: the
  significand has 53 bits, so the spacing of the doubles around \<open>x\<close> is
  \<open>2 ^ (e - 52)\<close>, with \<open>e\<close> not below \<open>-1022\<close> (the subnormal range); a rounded value
  of magnitude \<open>2 ^ 1024\<close> or more is an infinity.
\<close>

definition round_double :: "real \<Rightarrow> double" where
  "round_double x =
     (if x = 0 then Finite 0
      else
        let q = scale2 (max (exponent_of x) (- 1022) - 52);
            r = of_int (round_half_even (x / q)) * q
        in if 2 ^ 1024 \<le> \<bar>r\<bar> then (if 0 < x then PosInf else NegInf) else Finite r)"

text \<open>The reals that are doubles.\<close>

definition is_double :: "real \<Rightarrow> bool" where
  "is_double x \<longleftrightarrow> round_double x = Finite x"

fun fneg :: "double \<Rightarrow> double" where
  "fneg (Finite x) = Finite (- x)"
| "fneg PosInf = NegInf"
| "fneg NegInf = PosInf"
| "fneg NaN = NaN"

text \<open>Addition of doubles: the exact sum, rounded; the sum of opposite infinities is NaN.\<close>

fun fadd :: "double \<Rightarrow> double \<Rightarrow> double" where
  "fadd (Finite x) (Finite y) = round_double (x + y)"
| "fadd (Finite x) PosInf = PosInf"
| "fadd (Finite x) NegInf = NegInf"
| "fadd PosInf (Finite y) = PosInf"
| "fadd PosInf PosInf = PosInf"
| "fadd PosInf NegInf = NaN"
| "fadd NegInf (Finite y) = NegInf"
| "fadd NegInf PosInf = NaN"
| "fadd NegInf NegInf = NegInf"
| "fadd NaN y = NaN"
| "fadd x NaN = NaN"

definition fsub :: "double \<Rightarrow> double \<Rightarrow> double" where
  "fsub x y = fadd x (fneg y)"

text \<open>The comparisons \<open><\<close> and \<open><=\<close> of Python floats: false as soon as one side is NaN.\<close>

fun flt_less :: "double \<Rightarrow> double \<Rightarrow> bool" where
  "flt_less (Finite x) (Finite y) = (x < y)"
| "flt_less (Finite x) PosInf = True"
| "flt_less NegInf (Finite y) = True"
| "flt_less NegInf PosInf = True"
| "flt_less x y = False"

fun flt_le :: "double \<Rightarrow> double \<Rightarrow> bool" where
  "flt_le (Finite x) (Finite y) = (x \<le> y)"
| "flt_le (Finite x) PosInf = True"
| "flt_le PosInf PosInf = True"
| "flt_le NegInf (Finite y) = True"
| "flt_le NegInf PosInf = True"
| "flt_le NegInf NegInf = True"
| "flt_le x y = False"

text \<open>
  A column value is \<open>None\<close> for \<open>NULL\<close>. SQLite has no NaN: a NaN that is bound to a
  parameter, or that an arithmetic expression produces, becomes \<open>NULL\<close>. An expression
  with a \<open>NULL\<close> operand is \<open>NULL\<close>.
\<close>

definition bind_float :: "double \<Rightarrow> double option" where
  "bind_float x = (if x = NaN then None else Some x)"

definition sql_add :: "double option \<Rightarrow> double option \<Rightarrow> double option" where
  "sql_add a b =
     (case a of None \<Rightarrow> None
      | Some x \<Rightarrow> (case b of None \<Rightarrow> None | Some y \<Rightarrow> bind_float (fadd x y)))"

definition sql_sub :: "double option \<Rightarrow> double option \<Rightarrow> double option" where
  "sql_sub a b =
     (case a of None \<Rightarrow> None
      | Some x \<Rightarrow> (case b of None \<Rightarrow> None | Some y \<Rightarrow> bind_float (fsub x y)))"

section \<open>The SQLite store of \<open>BankManagementSystem\<close>\<close>

text \<open>
  The class \<open>BankManagementSystem\<close> keeps all of its state in one SQLite connection
  with two tables, \<open>users\<close> and \<open>transactions\<close>. A table is the list of its rows in
  rowid order. The column \<open>balance\<close> may be \<open>NULL\<close>; \<open>amount\<close> and \<open>balance_after\<close> are
  \<open>NOT NULL\<close>. \<open>CURRENT_TIMESTAMP\<close> is a reading of the clock with a resolution of one
  second; it is an input of every operation that inserts a row (the argument \<open>now\<close>),
  and its fixed-width text form is modelled by the number of seconds it denotes,
  which is ordered the same way. Failures of the database engine other than a
  violated constraint (a full disk, a locked file) are not modelled.
\<close>

record user_row =
  account_number :: nat
  full_name :: string
  email :: string
  phone :: string
  password :: string
  balance :: "double option"
  created_at :: nat

record transaction_row =
  transaction_id :: nat
  txn_account_number :: nat
  transaction_type :: string
  amount :: double
  balance_after :: double
  transaction_date :: nat

text \<open>
  \<open>users_seq\<close> and \<open>transactions_seq\<close> are the two entries of \<open>sqlite_sequence\<close> that
  \<open>AUTOINCREMENT\<close> maintains: the largest rowid ever handed out for the table.
\<close>

record database =
  users :: "user_row list"
  transactions :: "transaction_row list"
  users_seq :: nat
  transactions_seq :: nat

text \<open>
  A connection sees its own pending writes (\<open>view\<close>); \<open>disk\<close> is what the last
  \<open>commit\<close> made durable. Every query of the program goes through the one connection,
  so it reads \<open>view\<close>.
\<close>

record connection =
  view :: database
  disk :: database

datatype sqlite_error = IntegrityError

datatype exn = TypeError

text \<open>\<open>setup_database\<close> when the file \<open>bank_system.db\<close> does not exist yet.\<close>

definition setup_database :: connection where
  "setup_database =
     (let d = \<lparr>users = [], transactions = [], users_seq = 0, transactions_seq = 0\<rparr>
      in \<lparr>view = d, disk = d\<rparr>)"

definition commit :: "connection \<Rightarrow> connection" where
  "commit c = c\<lparr>disk := view c\<rparr>"

text \<open>
  The program ends and is started again: the connection is dropped without a
  commit, so its pending writes are rolled back, and \<open>setup_database\<close> connects to
  the file as it is (\<open>CREATE TABLE IF NOT EXISTS\<close> changes nothing).
\<close>

definition reopen :: "connection \<Rightarrow> connection" where
  "reopen c = \<lparr>view = disk c, disk = disk c\<rparr>"

subsection \<open>The SQL statements\<close>

text \<open>
  \<open>INTEGER PRIMARY KEY AUTOINCREMENT\<close>: the new rowid is one more than the largest
  rowid the table has ever held.
\<close>

definition next_rowid :: "nat list \<Rightarrow> nat \<Rightarrow> nat" where
  "next_rowid ids seq = Suc (fold max ids seq)"

text \<open>
  \<open>INSERT INTO users (full_name, email, phone, password, balance) VALUES (?, ?, ?, ?, ?)\<close>.
  The column \<open>email\<close> is \<open>UNIQUE\<close>: an email that some row already has violates the
  constraint and nothing is written. The result carries \<open>cursor.lastrowid\<close>.
\<close>

definition insert_user ::
  "string \<Rightarrow> string \<Rightarrow> string \<Rightarrow> string \<Rightarrow> double \<Rightarrow> nat \<Rightarrow> database
     \<Rightarrow> sqlite_error + (nat \<times> database)" where
  "insert_user name mail tel pw bal now d =
     (if mail \<in> set (map email (users d)) then Inl IntegrityError
      else
        let rowid = next_rowid (map account_number (users d)) (users_seq d) in
        Inr (rowid,
             d\<lparr>users := users d @
                  [\<lparr>account_number = rowid, full_name = name, email = mail, phone = tel,
                    password = pw, balance = bind_float bal, created_at = now\<rparr>],
               users_seq := rowid\<rparr>))"

text \<open>
  \<open>UPDATE users SET balance = <expr> WHERE account_number = ?\<close>, with the \<open>SET\<close>
  expression as a function of the old balance.
\<close>

definition update_balance ::
  "nat \<Rightarrow> (double option \<Rightarrow> double option) \<Rightarrow> database \<Rightarrow> database" where
  "update_balance acct expr d =
     d\<lparr>users := map (\<lambda>u. if account_number u = acct then u\<lparr>balance := expr (balance u)\<rparr> else u)
                    (users d)\<rparr>"

text \<open>
  \<open>SELECT balance FROM users WHERE account_number = ?\<close> followed by \<open>fetchone()\<close>:
  the first matching row, \<open>None\<close> when there is none. The balance in the row is
  \<open>None\<close> when the column is \<open>NULL\<close>.
\<close>

definition select_balance :: "nat \<Rightarrow> database \<Rightarrow> double option option" where
  "select_balance acct d =
     map_option balance (find (\<lambda>u. account_number u = acct) (users d))"

subsection \<open>The methods of \<open>BankManagementSystem\<close>\<close>

text \<open>
  \<open>record_transaction\<close> inserts one row into \<open>transactions\<close>; it does not commit.
  \<open>amt\<close> is a Python float, \<open>bal_after\<close> a Python float or \<open>None\<close>. When one of them
  is bound as \<open>NULL\<close>, the \<open>INSERT\<close> violates \<open>NOT NULL\<close>; the method catches the error,
  prints it and returns, and no row is written.
\<close>

definition record_transaction ::
  "nat \<Rightarrow> string \<Rightarrow> double \<Rightarrow> double option \<Rightarrow> nat \<Rightarrow> database \<Rightarrow> database" where
  "record_transaction acct trans_type amt bal_after now d =
     (case bind_float amt of
        None \<Rightarrow> d
      | Some a \<Rightarrow>
          (case Option.bind bal_after bind_float of
             None \<Rightarrow> d
           | Some b \<Rightarrow>
               let rowid = next_rowid (map transaction_id (transactions d)) (transactions_seq d)
               in d\<lparr>transactions := transactions d @
                       [\<lparr>transaction_id = rowid, txn_account_number = acct,
                         transaction_type = trans_type, amount = a, balance_after = b,
                         transaction_date = now\<rparr>],
                    transactions_seq := rowid\<rparr>))"

text \<open>
  \<open>register_user\<close>: insert the row and commit; when the initial deposit is positive,
  record it as a transaction (after the commit). \<open>IntegrityError\<close> is caught and
  \<open>None\<close> returned.
\<close>

definition register_user ::
  "string \<Rightarrow> string \<Rightarrow> string \<Rightarrow> string \<Rightarrow> double \<Rightarrow> nat \<Rightarrow> connection
     \<Rightarrow> nat option \<times> connection" where
  "register_user name mail tel pw initial_deposit now c =
     (case insert_user name mail tel pw initial_deposit now (view c) of
        Inl IntegrityError \<Rightarrow> (None, c)
      | Inr (acct, d) \<Rightarrow>
          let c1 = commit (c\<lparr>view := d\<rparr>);
              c2 = (if flt_less (Finite 0) initial_deposit
                    then c1\<lparr>view := record_transaction acct ''Deposit'' initial_deposit
                                      (Some initial_deposit) now (view c1)\<rparr>
                    else c1)
          in (Some acct, c2))"

text \<open>
  \<open>deposit_money\<close>: update, read the balance back, record, commit. For an account
  number without a row \<open>fetchone()\<close> is \<open>None\<close> and indexing it raises \<open>TypeError\<close>,
  which the method does not catch. The balance read back, and returned, is \<open>None\<close>
  when the column has become \<open>NULL\<close>.
\<close>

definition deposit_money ::
  "nat \<Rightarrow> double \<Rightarrow> nat \<Rightarrow> connection \<Rightarrow> (exn + double option) \<times> connection" where
  "deposit_money acct amt now c =
     (let d1 = update_balance acct (\<lambda>b. sql_add b (bind_float amt)) (view c) in
      case select_balance acct d1 of
        None \<Rightarrow> (Inl TypeError, c\<lparr>view := d1\<rparr>)
      | Some new_balance \<Rightarrow>
          (Inr new_balance,
           commit (c\<lparr>view := record_transaction acct ''Deposit'' amt new_balance now d1\<rparr>)))"

text \<open>
  \<open>withdraw_money\<close>: read the balance, refuse when it is smaller than the amount,
  otherwise update, compute the new balance in Python, record and commit. It
  returns a pair of the new balance (or \<open>None\<close>) and a message. Comparing a balance
  that is \<open>None\<close> with a float raises \<open>TypeError\<close>.
\<close>

definition withdraw_money ::
  "nat \<Rightarrow> double \<Rightarrow> nat \<Rightarrow> connection \<Rightarrow> (exn + double option \<times> string) \<times> connection" where
  "withdraw_money acct amt now c =
     (case select_balance acct (view c) of
        None \<Rightarrow> (Inl TypeError, c)
      | Some None \<Rightarrow> (Inl TypeError, c)
      | Some (Some current_balance) \<Rightarrow>
          if flt_less current_balance amt then (Inr (None, ''Insufficient funds''), c)
          else
            let d1 = update_balance acct (\<lambda>b. sql_sub b (bind_float amt)) (view c);
                new_balance = fsub current_balance amt
            in (Inr (Some new_balance, ''Success''),
                commit (c\<lparr>view := record_transaction acct ''Withdrawal'' amt (Some new_balance)
                                      now d1\<rparr>)))"

definition get_balance :: "nat \<Rightarrow> connection \<Rightarrow> exn + double option" where
  "get_balance acct c =
     (case select_balance acct (view c) of None \<Rightarrow> Inl TypeError | Some b \<Rightarrow> Inr b)"

text \<open>
  \<open>ORDER BY transaction_date DESC\<close>: rows with a later date come first. SQL leaves
  the order of rows with equal dates open; the model keeps them in rowid order.
\<close>

fun insert_by_date :: "transaction_row \<Rightarrow> transaction_row list \<Rightarrow> transaction_row list" where
  "insert_by_date t [] = [t]"
| "insert_by_date t (r # rs) =
     (if transaction_date r \<le> transaction_date t then t # r # rs
      else r # insert_by_date t rs)"

definition order_by_date_desc :: "transaction_row list \<Rightarrow> transaction_row list" where
  "order_by_date_desc rs = foldr insert_by_date rs []"

definition selected_columns :: "transaction_row \<Rightarrow> string \<times> double \<times> double \<times> nat" where
  "selected_columns t =
     (transaction_type t, amount t, balance_after t, transaction_date t)"

text \<open>
  \<open>SELECT transaction_type, amount, balance_after, transaction_date FROM transactions
  WHERE account_number = ? ORDER BY transaction_date DESC\<close>.
\<close>

definition get_transaction_history ::
  "nat \<Rightarrow> connection \<Rightarrow> (string \<times> double \<times> double \<times> nat) list" where
  "get_transaction_history acct c =
     map selected_columns
       (order_by_date_desc
          (filter (\<lambda>t. txn_account_number t = acct) (transactions (view c))))"

subsection \<open>The handler behind the Deposit and Withdraw screens\<close>

text \<open>
  \<open>BankGUI.create_transaction_screen.process_transaction\<close>. The text of the entry
  is parsed by \<open>float\<close>, which also accepts \<open>nan\<close> and \<open>inf\<close>; \<open>entered\<close> is the parsed
  amount, \<open>None\<close> when \<open>float\<close> raises \<open>ValueError\<close>. The result is the message box
  shown; after a deposit that returns \<open>None\<close> none is shown. \<open>acct\<close> is the account
  number of the user who is logged in.
\<close>

datatype message_box =
    InvalidInput
  | InvalidAmount
  | Deposited double
  | Withdrawn double
  | TransactionFailed string
  | NoMessage

definition process_transaction ::
  "string \<Rightarrow> double option \<Rightarrow> nat \<Rightarrow> nat \<Rightarrow> connection \<Rightarrow> (exn + message_box) \<times> connection" where
  "process_transaction trans_type entered acct now c =
     (case entered of
        None \<Rightarrow> (Inr InvalidInput, c)
      | Some amt \<Rightarrow>
          if flt_le amt (Finite 0) then (Inr InvalidAmount, c)
          else if trans_type = ''Deposit'' then
            (case deposit_money acct amt now c of
               (Inl e, c') \<Rightarrow> (Inl e, c')
             | (Inr (Some new_balance), c') \<Rightarrow> (Inr (Deposited new_balance), c')
             | (Inr None, c') \<Rightarrow> (Inr NoMessage, c'))
          else
            (case withdraw_money acct amt now c of
               (Inl e, c') \<Rightarrow> (Inl e, c')
             | (Inr (Some new_balance, msg), c') \<Rightarrow> (Inr (Withdrawn new_balance), c')
             | (Inr (None, msg), c') \<Rightarrow> (Inr (TransactionFailed msg), c')))"

subsection \<open>Sequences of calls\<close>

text \<open>
  The three methods that write, as values, each with the clock reading of the call;
  \<open>run\<close> performs a sequence of them on the store that \<open>setup_database\<close> creates.
  An uncaught \<open>TypeError\<close> ends the handler that made the call, not the program, so
  the sequence goes on with the connection as that call left it.
\<close>

datatype call =
    Register string string string string double nat
  | Deposit nat double nat
  | Withdraw nat double nat

fun perform :: "call \<Rightarrow> connection \<Rightarrow> connection" where
  "perform (Register name mail tel pw initial_deposit now) c =
     snd (register_user name mail tel pw initial_deposit now c)"
| "perform (Deposit acct amt now) c = snd (deposit_money acct amt now c)"
| "perform (Withdraw acct amt now) c = snd (withdraw_money acct amt now c)"

definition run :: "call list \<Rightarrow> connection" where
  "run calls = fold perform calls setup_database"

text \<open>
  The arguments that the screens let through as far as the sign goes: an initial
  deposit with \<open>0 <= initial_deposit\<close>, an amount to deposit or withdraw with
  \<open>0 < amount\<close>.
\<close>

fun permitted :: "call \<Rightarrow> bool" where
  "permitted (Register name mail tel pw initial_deposit now) = flt_le (Finite 0) initial_deposit"
| "permitted (Deposit acct amt now) = flt_less (Finite 0) amt"
| "permitted (Withdraw acct amt now) = flt_less (Finite 0) amt"

text \<open>The row of an account that was inserted last, if it has any.\<close>

definition last_transaction :: "nat \<Rightarrow> database \<Rightarrow> transaction_row option" where
  "last_transaction acct d =
     (case filter (\<lambda>t. txn_account_number t = acct) (transactions d) of
        [] \<Rightarrow> None
      | r # rs \<Rightarrow> Some (last (r # rs)))"

text \<open>The calls whose amount is a finite number.\<close>

fun finite_call :: "call \<Rightarrow> bool" where
  "finite_call (Register name mail tel pw initial_deposit now) = (\<exists>x. initial_deposit = Finite x)"
| "finite_call (Deposit acct amt now) = (\<exists>x. amt = Finite x)"
| "finite_call (Withdraw acct amt now) = (\<exists>x. amt = Finite x)"

text \<open>
  What holds of a store as long as every amount was finite: account numbers are a
  key, every transaction belongs to an account, no balance is \<open>NULL\<close>, and the last
  transaction of an account shows its balance. A store is solvent when no balance
  is \<open>NULL\<close> or below zero.
\<close>

definition consistent :: "database \<Rightarrow> bool" where
  "consistent d \<longleftrightarrow>
     distinct (map account_number (users d)) \<and>
     set (map txn_account_number (transactions d)) \<subseteq> set (map account_number (users d)) \<and>
     (\<forall>u \<in> set (users d). \<exists>v. balance u = Some v \<and> v \<noteq> NaN) \<and>
     (\<forall>acct t. last_transaction acct d = Some t \<longrightarrow>
        select_balance acct d = Some (Some (balance_after t)))"

definition solvent :: "database \<Rightarrow> bool" where
  "solvent d \<longleftrightarrow>
     list_all (\<lambda>u. case balance u of None \<Rightarrow> False | Some v \<Rightarrow> flt_le (Finite 0) v) (users d)"

subsection \<open>Stores to compute with\<close>

text \<open>
  The store after \<open>register("A", "a@x.com", "555", "pw", 100.0)\<close> on a fresh database,
  at clock reading 0; the same with an initial deposit of \<open>1e16\<close>; and the first
  store after a second registration, of \<open>"B"\<close> with 50.0 at clock reading 3.
\<close>

definition one_account :: connection where
  "one_account =
     snd (register_user ''A'' ''a@x.com'' ''555'' ''pw'' (Finite 100) 0 setup_database)"

definition big_account :: connection where
  "big_account =
     snd (register_user ''A'' ''a@x.com'' ''555'' ''pw'' (Finite 10000000000000000) 0
            setup_database)"

definition two_accounts :: connection where
  "two_accounts =
     snd (register_user ''B'' ''b@x.com'' ''777'' ''secret'' (Finite 50) 3 one_account)"

section \<open>Arithmetic of doubles\<close>

lemmas double_eval =
  round_double_def exponent_of_def compute_floorlog scale2_def round_half_even_def Let_def

lemma round_double_not_NaN [simp]: "round_double x \<noteq> NaN"
  by (simp add: round_double_def Let_def)

lemma bind_float_round_double [simp]: "bind_float (round_double x) = Some (round_double x)"
  by (simp add: bind_float_def)

lemma bind_float_Finite [simp]: "bind_float (Finite x) = Some (Finite x)"
  by (simp add: bind_float_def)

lemma bind_float_PosInf [simp]: "bind_float PosInf = Some PosInf"
  by (simp add: bind_float_def)

lemma bind_float_NegInf [simp]: "bind_float NegInf = Some NegInf"
  by (simp add: bind_float_def)

lemma bind_float_NaN [simp]: "bind_float NaN = None"
  by (simp add: bind_float_def)

lemma fsub_Finite [simp]: "fsub (Finite x) (Finite y) = round_double (x - y)"
  by (simp add: fsub_def)

text \<open>
  Two sums as Python computes them: \<open>1e16 + 1.0\<close> is \<open>1e16\<close>, and \<open>0.2 + 0.1\<close>, where
  each literal is first rounded to a double, is the double that prints as
  \<open>0.30000000000000004\<close>.
\<close>

lemma round_double_1e16_plus_1: "round_double (10000000000000000 + 1) = Finite 10000000000000000"
  by (simp add: double_eval)

lemma round_double_1e16_minus_1: "round_double (10000000000000000 - 1) = Finite 10000000000000000"
  by (simp add: double_eval)

lemma is_double_1e16: "is_double 10000000000000000"
  by (simp add: is_double_def double_eval)

lemma is_double_1: "is_double 1"
  by (simp add: is_double_def double_eval)

lemma fadd_tenths:
  "fadd (round_double (2 / 10)) (round_double (1 / 10)) =
     round_double (30000000000000004 / 100000000000000000)"
  by (simp add: double_eval)

section \<open>Withdrawals and deposits\<close>

lemma find_map_balance:
  "map_option balance
     (find (\<lambda>u. account_number u = x)
        (map (\<lambda>u. if account_number u = acct then u\<lparr>balance := expr (balance u)\<rparr> else u) us)) =
   (if x = acct then map_option expr (map_option balance (find (\<lambda>u. account_number u = x) us))
    else map_option balance (find (\<lambda>u. account_number u = x) us))"
  by (induction us) auto

lemma select_balance_update_balance:
  "select_balance x (update_balance acct expr d) =
     (if x = acct then map_option expr (select_balance x d) else select_balance x d)"
  unfolding select_balance_def update_balance_def
  using find_map_balance [of x acct expr "users d"] by simp

lemma select_balance_record_transaction [simp]:
  "select_balance x (record_transaction acct ty amt bal now d) = select_balance x d"
  by (simp add: select_balance_def record_transaction_def Let_def split: option.splits)

lemma transactions_update_balance [simp]:
  "transactions (update_balance acct expr d) = transactions d"
  by (simp add: update_balance_def)

lemma transactions_seq_update_balance [simp]:
  "transactions_seq (update_balance acct expr d) = transactions_seq d"
  by (simp add: update_balance_def)

lemma record_transaction_stored:
  assumes "amt \<noteq> NaN" and "bal \<noteq> NaN"
  shows "transactions (record_transaction acct ty amt (Some bal) now d) =
           transactions d @
             [\<lparr>transaction_id = next_rowid (map transaction_id (transactions d)) (transactions_seq d),
               txn_account_number = acct, transaction_type = ty, amount = amt,
               balance_after = bal, transaction_date = now\<rparr>]"
  using assms by (simp add: record_transaction_def bind_float_def Let_def)

lemma one_account_eq:
  "one_account =
     \<lparr>view = \<lparr>users = [\<lparr>account_number = 1, full_name = ''A'', email = ''a@x.com'',
                        phone = ''555'', password = ''pw'', balance = Some (Finite 100),
                        created_at = 0\<rparr>],
              transactions = [\<lparr>transaction_id = 1, txn_account_number = 1,
                               transaction_type = ''Deposit'', amount = Finite 100,
                               balance_after = Finite 100, transaction_date = 0\<rparr>],
              users_seq = 1, transactions_seq = 1\<rparr>,
      disk = \<lparr>users = [\<lparr>account_number = 1, full_name = ''A'', email = ''a@x.com'',
                        phone = ''555'', password = ''pw'', balance = Some (Finite 100),
                        created_at = 0\<rparr>],
              transactions = [], users_seq = 1, transactions_seq = 0\<rparr>\<rparr>"
  by (simp add: one_account_def register_user_def insert_user_def setup_database_def
      record_transaction_def commit_def next_rowid_def Let_def)

lemma one_account_balance: "select_balance 1 (view one_account) = Some (Some (Finite 100))"
  by (simp add: one_account_eq select_balance_def)

lemma big_account_eq:
  "big_account =
     \<lparr>view = \<lparr>users = [\<lparr>account_number = 1, full_name = ''A'', email = ''a@x.com'',
                        phone = ''555'', password = ''pw'', balance = Some (Finite 10000000000000000),
                        created_at = 0\<rparr>],
              transactions = [\<lparr>transaction_id = 1, txn_account_number = 1,
                               transaction_type = ''Deposit'', amount = Finite 10000000000000000,
                               balance_after = Finite 10000000000000000, transaction_date = 0\<rparr>],
              users_seq = 1, transactions_seq = 1\<rparr>,
      disk = \<lparr>users = [\<lparr>account_number = 1, full_name = ''A'', email = ''a@x.com'',
                        phone = ''555'', password = ''pw'', balance = Some (Finite 10000000000000000),
                        created_at = 0\<rparr>],
              transactions = [], users_seq = 1, transactions_seq = 0\<rparr>\<rparr>"
  by (simp add: big_account_def register_user_def insert_user_def setup_database_def
      record_transaction_def commit_def next_rowid_def Let_def)

lemma big_account_balance: "select_balance 1 (view big_account) = Some (Some (Finite 10000000000000000))"
  by (simp add: big_account_eq select_balance_def)

text \<open>
  The claim C1 speaks of the exact difference \<open>b - a\<close>. On the store with one account
  of balance \<open>1e16\<close>, a withdrawal of \<open>1.0\<close> succeeds and returns \<open>1e16\<close>, which is
  also the balance stored afterwards: \<open>1e16 - 1\<close> is not a double, and the nearest
  double is \<open>1e16\<close>.
\<close>

theorem withdraw_money_rounds:
  "is_double 10000000000000000 \<and> is_double 1
   \<and> select_balance 1 (view big_account) = Some (Some (Finite 10000000000000000))
   \<and> fst (withdraw_money 1 (Finite 1) 7 big_account) =
       Inr (Some (Finite 10000000000000000), ''Success'')
   \<and> select_balance 1 (view (snd (withdraw_money 1 (Finite 1) 7 big_account))) =
       Some (Some (Finite 10000000000000000))
   \<and> select_balance 1 (view (snd (withdraw_money 1 (Finite 1) 7 big_account))) \<noteq>
       Some (Some (Finite (10000000000000000 - 1)))"
proof -
  have sub: "fsub (Finite 10000000000000000) (Finite 1) = Finite 10000000000000000"
    using round_double_1e16_minus_1 by simp
  have run: "withdraw_money 1 (Finite 1) 7 big_account =
      (Inr (Some (Finite 10000000000000000), ''Success''),
       commit (big_account\<lparr>view :=
         record_transaction 1 ''Withdrawal'' (Finite 1) (Some (Finite 10000000000000000)) 7
           (update_balance 1 (\<lambda>b. sql_sub b (bind_float (Finite 1))) (view big_account))\<rparr>))"
    using big_account_balance sub
    by (simp add: withdraw_money_def Let_def del: fsub_Finite)
  have "select_balance 1 (update_balance 1 (\<lambda>b. sql_sub b (bind_float (Finite 1))) (view big_account)) =
      Some (Some (Finite 10000000000000000))"
    using big_account_balance sub
    by (simp add: select_balance_update_balance sql_sub_def del: fsub_Finite)
  with run big_account_balance is_double_1e16 is_double_1 show ?thesis
    by (simp add: commit_def)
qed

text \<open>
  C1, as the code has it. For an account whose balance is the finite double \<open>b\<close> and
  a finite amount \<open>a\<close> with \<open>0 < a \<le> b\<close>, \<open>withdraw_money\<close> succeeds; the balance it
  returns and the balance stored afterwards are both \<open>b - a\<close> rounded to a double, and
  the table of transactions grows by exactly one row: a Withdrawal of the account
  with amount \<open>a\<close> and that same rounded difference as balance after.
\<close>

theorem withdraw_money_within_balance:
  assumes "select_balance acct (view c) = Some (Some (Finite b))" and "0 < a" and "a \<le> b"
  shows "fst (withdraw_money acct (Finite a) now c) = Inr (Some (round_double (b - a)), ''Success'')
       \<and> select_balance acct (view (snd (withdraw_money acct (Finite a) now c))) =
           Some (Some (round_double (b - a)))
       \<and> (\<exists>rowid. transactions (view (snd (withdraw_money acct (Finite a) now c))) =
            transactions (view c) @
              [\<lparr>transaction_id = rowid, txn_account_number = acct,
                transaction_type = ''Withdrawal'', amount = Finite a,
                balance_after = round_double (b - a), transaction_date = now\<rparr>])"
proof -
  let ?d1 = "update_balance acct (\<lambda>b. sql_sub b (bind_float (Finite a))) (view c)"
  let ?d2 = "record_transaction acct ''Withdrawal'' (Finite a) (Some (round_double (b - a))) now ?d1"
  from assms have run: "withdraw_money acct (Finite a) now c =
      (Inr (Some (round_double (b - a)), ''Success''), commit (c\<lparr>view := ?d2\<rparr>))"
    by (simp add: withdraw_money_def Let_def)
  have bal: "select_balance acct ?d2 = Some (Some (round_double (b - a)))"
    using assms(1) by (simp add: select_balance_update_balance sql_sub_def)
  have rows: "transactions ?d2 = transactions (view c) @
      [\<lparr>transaction_id = next_rowid (map transaction_id (transactions (view c)))
                           (transactions_seq (view c)),
        txn_account_number = acct, transaction_type = ''Withdrawal'', amount = Finite a,
        balance_after = round_double (b - a), transaction_date = now\<rparr>]"
    by (simp add: record_transaction_stored)
  from run bal rows show ?thesis
    by (simp add: commit_def)
qed

theorem withdraw_money_within_balance_witness:
  "select_balance 1 (view one_account) = Some (Some (Finite 100)) \<and> (0::real) < 40
   \<and> (40::real) \<le> 100
   \<and> fst (withdraw_money 1 (Finite 40) 7 one_account) = Inr (Some (Finite 60), ''Success'')
   \<and> select_balance 1 (view (snd (withdraw_money 1 (Finite 40) 7 one_account))) =
       Some (Some (Finite 60))"
proof -
  have "round_double (100 - 40) = Finite 60"
    by (simp add: double_eval)
  with withdraw_money_within_balance [of 1 one_account 100 40 7] one_account_balance
  show ?thesis by simp
qed

text \<open>
  C2. For an account whose balance is \<open>b\<close> and an amount \<open>a\<close> with \<open>b < a\<close>,
  \<open>withdraw_money\<close> returns no balance and the message \<open>Insufficient funds\<close>, and the
  stored balance of the account is still \<open>b\<close> after the call.
\<close>

theorem withdraw_money_exceeding_balance:
  assumes "select_balance acct (view c) = Some (Some b)" and "flt_less b a"
  shows "fst (withdraw_money acct a now c) = Inr (None, ''Insufficient funds'')
       \<and> select_balance acct (view (snd (withdraw_money acct a now c))) = Some (Some b)"
  using assms by (simp add: withdraw_money_def)

theorem withdraw_money_exceeding_balance_witness:
  "select_balance 1 (view one_account) = Some (Some (Finite 100))
   \<and> flt_less (Finite 100) (Finite 150)
   \<and> fst (withdraw_money 1 (Finite 150) 7 one_account) = Inr (None, ''Insufficient funds'')
   \<and> select_balance 1 (view (snd (withdraw_money 1 (Finite 150) 7 one_account))) =
       Some (Some (Finite 100))"
  using withdraw_money_exceeding_balance [of 1 one_account "Finite 100" "Finite 150" 7]
    one_account_balance
  by simp

text \<open>
  The claim C3 speaks of the exact sum \<open>b + a\<close>. On the store with one account of
  balance \<open>1e16\<close>, a deposit of \<open>1.0\<close> succeeds and returns \<open>1e16\<close>, which is also the
  balance stored afterwards and the balance after of the new row.
\<close>

theorem deposit_money_rounds:
  "is_double 10000000000000000 \<and> is_double 1
   \<and> select_balance 1 (view big_account) = Some (Some (Finite 10000000000000000))
   \<and> fst (deposit_money 1 (Finite 1) 7 big_account) = Inr (Some (Finite 10000000000000000))
   \<and> select_balance 1 (view (snd (deposit_money 1 (Finite 1) 7 big_account))) =
       Some (Some (Finite 10000000000000000))
   \<and> fst (deposit_money 1 (Finite 1) 7 big_account) \<noteq>
       Inr (Some (Finite (10000000000000000 + 1)))"
proof -
  let ?d1 = "update_balance 1 (\<lambda>b. sql_add b (bind_float (Finite 1))) (view big_account)"
  have read_back: "select_balance 1 ?d1 = Some (Some (Finite 10000000000000000))"
    using big_account_balance round_double_1e16_plus_1
    by (simp add: select_balance_update_balance sql_add_def)
  then have "deposit_money 1 (Finite 1) 7 big_account =
      (Inr (Some (Finite 10000000000000000)),
       commit (big_account\<lparr>view :=
         record_transaction 1 ''Deposit'' (Finite 1) (Some (Finite 10000000000000000)) 7 ?d1\<rparr>))"
    by (simp add: deposit_money_def Let_def)
  with read_back big_account_balance is_double_1e16 is_double_1 show ?thesis
    by (simp add: commit_def)
qed

text \<open>
  C3, as the code has it. For an account whose balance is the finite double \<open>b\<close> and
  a finite amount \<open>a > 0\<close>, \<open>deposit_money\<close> succeeds; the balance it returns and the
  balance stored afterwards are both \<open>b + a\<close> rounded to a double, and the table of
  transactions grows by exactly one row: a Deposit of the account with amount \<open>a\<close>
  and that same rounded sum as balance after.
\<close>

theorem deposit_money_positive:
  assumes "select_balance acct (view c) = Some (Some (Finite b))" and "0 < a"
  shows "fst (deposit_money acct (Finite a) now c) = Inr (Some (round_double (b + a)))
       \<and> select_balance acct (view (snd (deposit_money acct (Finite a) now c))) =
           Some (Some (round_double (b + a)))
       \<and> (\<exists>rowid. transactions (view (snd (deposit_money acct (Finite a) now c))) =
            transactions (view c) @
              [\<lparr>transaction_id = rowid, txn_account_number = acct,
                transaction_type = ''Deposit'', amount = Finite a,
                balance_after = round_double (b + a), transaction_date = now\<rparr>])"
proof -
  let ?d1 = "update_balance acct (\<lambda>b. sql_add b (bind_float (Finite a))) (view c)"
  let ?d2 = "record_transaction acct ''Deposit'' (Finite a) (Some (round_double (b + a))) now ?d1"
  have read_back: "select_balance acct ?d1 = Some (Some (round_double (b + a)))"
    using assms(1) by (simp add: select_balance_update_balance sql_add_def)
  then have run: "deposit_money acct (Finite a) now c =
      (Inr (Some (round_double (b + a))), commit (c\<lparr>view := ?d2\<rparr>))"
    by (simp add: deposit_money_def Let_def)
  have rows: "transactions ?d2 = transactions (view c) @
      [\<lparr>transaction_id = next_rowid (map transaction_id (transactions (view c)))
                           (transactions_seq (view c)),
        txn_account_number = acct, transaction_type = ''Deposit'', amount = Finite a,
        balance_after = round_double (b + a), transaction_date = now\<rparr>]"
    by (simp add: record_transaction_stored)
  from run read_back rows show ?thesis
    by (simp add: commit_def)
qed

theorem deposit_money_positive_witness:
  "select_balance 1 (view one_account) = Some (Some (Finite 100)) \<and> (0::real) < 25
   \<and> fst (deposit_money 1 (Finite 25) 7 one_account) = Inr (Some (Finite 125))
   \<and> select_balance 1 (view (snd (deposit_money 1 (Finite 25) 7 one_account))) =
       Some (Some (Finite 125))"
proof -
  have "round_double (100 + 25) = Finite 125"
    by (simp add: double_eval)
  with deposit_money_positive [of 1 one_account 100 25 7] one_account_balance
  show ?thesis by simp
qed

text \<open>
  C10. When \<open>withdraw_money\<close> fails for insufficient funds, the connection after the
  call is the connection before it: no row of \<open>users\<close> or \<open>transactions\<close> is written
  and nothing is committed.
\<close>

theorem withdraw_money_insufficient_no_write:
  assumes "fst (withdraw_money acct a now c) = Inr (None, ''Insufficient funds'')"
  shows "snd (withdraw_money acct a now c) = c"
  using assms
  by (simp add: withdraw_money_def Let_def split: option.splits if_splits)

theorem withdraw_money_insufficient_no_write_witness:
  "fst (withdraw_money 1 (Finite 150) 7 one_account) = Inr (None, ''Insufficient funds'')
   \<and> snd (withdraw_money 1 (Finite 150) 7 one_account) = one_account"
proof -
  have failed: "fst (withdraw_money 1 (Finite 150) 7 one_account) =
      Inr (None, ''Insufficient funds'')"
    using one_account_balance by (simp add: withdraw_money_def)
  from failed withdraw_money_insufficient_no_write [OF failed] show ?thesis
    by simp
qed

section \<open>Registration\<close>

text \<open>
  C5. When some row of \<open>users\<close> already has the email, the \<open>INSERT\<close> of \<open>register_user\<close>
  violates the \<open>UNIQUE\<close> constraint, \<open>register_user\<close> returns \<open>None\<close> and the connection
  is unchanged: no account is created, and every row of both tables is as before.
\<close>

theorem register_user_duplicate_email:
  assumes "u \<in> set (users (view c))" and "email u = mail"
  shows "insert_user name mail tel pw initial_deposit now (view c) = Inl IntegrityError
       \<and> register_user name mail tel pw initial_deposit now c = (None, c)"
  using assms by (auto simp add: register_user_def insert_user_def)

theorem register_user_duplicate_email_witness:
  "register_user ''B'' ''a@x.com'' ''777'' ''secret'' (Finite 5) 3 one_account =
     (None, one_account)"
proof -
  let ?u = "\<lparr>account_number = 1, full_name = ''A'', email = ''a@x.com'',
             phone = ''555'', password = ''pw'', balance = Some (Finite 100), created_at = 0\<rparr>"
  have "?u \<in> set (users (view one_account))" and "email ?u = ''a@x.com''"
    by (simp_all add: one_account_eq)
  from register_user_duplicate_email [OF this] show ?thesis
    by simp
qed

section \<open>Amounts that are not positive\<close>

text \<open>
  \<open>deposit_money\<close> and \<open>withdraw_money\<close> do not look at the sign of the amount: on
  the store with one account of balance 100, a deposit of \<open>-5\<close> succeeds and leaves
  the balance 95 with a second transaction row, and a withdrawal of \<open>-5\<close> succeeds
  and leaves the balance 105.
\<close>

theorem ledger_accepts_nonpositive_amount:
  "select_balance 1 (view one_account) = Some (Some (Finite 100))
   \<and> length (transactions (view one_account)) = 1
   \<and> fst (deposit_money 1 (Finite (- 5)) 7 one_account) = Inr (Some (Finite 95))
   \<and> select_balance 1 (view (snd (deposit_money 1 (Finite (- 5)) 7 one_account))) =
       Some (Some (Finite 95))
   \<and> length (transactions (view (snd (deposit_money 1 (Finite (- 5)) 7 one_account)))) = 2
   \<and> fst (withdraw_money 1 (Finite (- 5)) 7 one_account) = Inr (Some (Finite 105), ''Success'')
   \<and> select_balance 1 (view (snd (withdraw_money 1 (Finite (- 5)) 7 one_account))) =
       Some (Some (Finite 105))"
proof -
  have sums: "round_double 95 = Finite 95" "round_double 105 = Finite 105"
    by (simp_all add: double_eval)
  then show ?thesis
    by (simp add: one_account_eq deposit_money_def withdraw_money_def select_balance_def
        update_balance_def record_transaction_def commit_def sql_add_def sql_sub_def Let_def)
qed

text \<open>
  C6, as the code has it. The check of the sign is in the handler of the Deposit and
  Withdraw screens, \<open>process_transaction\<close>: for an entered amount \<open>a\<close> with \<open>a <= 0\<close> it
  shows the warning for an invalid amount and calls neither \<open>deposit_money\<close> nor
  \<open>withdraw_money\<close>, so the connection, and with it every balance and every
  transaction history, is unchanged.
\<close>

theorem process_transaction_rejects_nonpositive:
  assumes "flt_le a (Finite 0)"
  shows "process_transaction trans_type (Some a) acct now c = (Inr InvalidAmount, c)"
  using assms by (simp add: process_transaction_def)

theorem process_transaction_rejects_nonpositive_witness:
  "flt_le (Finite (- 5)) (Finite 0)
   \<and> process_transaction ''Deposit'' (Some (Finite (- 5))) 1 7 one_account =
       (Inr InvalidAmount, one_account)
   \<and> process_transaction ''Withdraw'' (Some (Finite 0)) 1 7 one_account =
       (Inr InvalidAmount, one_account)"
  using process_transaction_rejects_nonpositive [of "Finite (- 5)" "''Deposit''" 1 7 one_account]
    process_transaction_rejects_nonpositive [of "Finite 0" "''Withdraw''" 1 7 one_account]
  by simp

text \<open>
  \<open>register_user\<close> commits after the \<open>INSERT\<close> into \<open>users\<close> and before
  \<open>record_transaction\<close>, and not again: whatever the arguments, the committed table of
  transactions after the call holds the rows that the connection saw before the
  call and no new one. \<open>deposit_money\<close> and \<open>withdraw_money\<close> record first and commit
  afterwards, so that all they wrote is committed when they return.
\<close>

lemma register_user_commits_before_recording:
  assumes "fst (register_user name mail tel pw initial_deposit now c) = Some acct"
  shows "transactions (disk (snd (register_user name mail tel pw initial_deposit now c))) =
           transactions (view c)"
  using assms
  by (auto simp add: register_user_def insert_user_def commit_def Let_def
      split: if_splits sum.splits sqlite_error.splits)

lemma deposit_money_commits_after_recording:
  assumes "fst (deposit_money acct amt now c) = Inr new_balance"
  shows "disk (snd (deposit_money acct amt now c)) = view (snd (deposit_money acct amt now c))"
  using assms
  by (simp add: deposit_money_def commit_def Let_def split: option.splits)

lemma withdraw_money_commits_after_recording:
  assumes "fst (withdraw_money acct amt now c) = Inr (Some new_balance, msg)"
  shows "disk (snd (withdraw_money acct amt now c)) = view (snd (withdraw_money acct amt now c))"
  using assms
  by (simp add: withdraw_money_def commit_def Let_def split: option.splits if_splits)

text \<open>
  C4 at \<open>register("A", "a@x.com", "555", "pw", 100.0)\<close> on a fresh database. The call
  returns account number 1, and the connection that made the call sees the Deposit
  row. The committed store has the account with balance 100 and no transaction
  row at all: when the program is closed and started again, the history of the
  account is empty.
\<close>

theorem register_user_deposit_row_not_committed:
  "fst (register_user ''A'' ''a@x.com'' ''555'' ''pw'' (Finite 100) 0 setup_database) = Some 1
   \<and> get_transaction_history 1 one_account = [(''Deposit'', Finite 100, Finite 100, 0)]
   \<and> select_balance 1 (disk one_account) = Some (Some (Finite 100))
   \<and> transactions (disk one_account) = []
   \<and> select_balance 1 (view (reopen one_account)) = Some (Some (Finite 100))
   \<and> get_transaction_history 1 (reopen one_account) = []"
proof -
  have "fst (register_user ''A'' ''a@x.com'' ''555'' ''pw'' (Finite 100) 0 setup_database) = Some 1"
    by (simp add: register_user_def insert_user_def setup_database_def next_rowid_def Let_def)
  then show ?thesis
    by (simp add: one_account_eq reopen_def select_balance_def get_transaction_history_def
        order_by_date_desc_def selected_columns_def)
qed

section \<open>Amounts that are not finite\<close>

lemma run_register_A: "run [Register ''A'' ''a@x.com'' ''555'' ''pw'' (Finite 100) 0] = one_account"
  by (simp add: run_def one_account_def)

text \<open>
  C7 at the entry \<open>nan\<close> on the Deposit screen of the account registered with 100.0.
  \<open>float\<close> parses it, the check \<open>amount <= 0\<close> is false for NaN, and \<open>deposit_money\<close>
  is called: the \<open>UPDATE\<close> makes the balance \<open>NULL\<close>, the \<open>INSERT\<close> of
  \<open>record_transaction\<close> violates \<open>NOT NULL\<close> and the error is swallowed, and the commit
  goes through. The account still has its transaction of the registration, whose
  balance after is 100, and its stored balance is \<open>NULL\<close>.
\<close>

theorem deposit_nan_leaves_stale_last_transaction:
  "\<not> flt_le NaN (Finite 0)
   \<and> process_transaction ''Deposit'' (Some NaN) 1 7 one_account =
       (Inr NoMessage, run [Register ''A'' ''a@x.com'' ''555'' ''pw'' (Finite 100) 0, Deposit 1 NaN 7])
   \<and> last_transaction 1 (view (run [Register ''A'' ''a@x.com'' ''555'' ''pw'' (Finite 100) 0, Deposit 1 NaN 7])) =
       Some \<lparr>transaction_id = 1, txn_account_number = 1, transaction_type = ''Deposit'',
          amount = Finite 100, balance_after = Finite 100, transaction_date = 0\<rparr>
   \<and> select_balance 1 (view (run [Register ''A'' ''a@x.com'' ''555'' ''pw'' (Finite 100) 0, Deposit 1 NaN 7])) = Some None
   \<and> disk (run [Register ''A'' ''a@x.com'' ''555'' ''pw'' (Finite 100) 0, Deposit 1 NaN 7]) =
       view (run [Register ''A'' ''a@x.com'' ''555'' ''pw'' (Finite 100) 0, Deposit 1 NaN 7])"
proof -
  have after: "run [Register ''A'' ''a@x.com'' ''555'' ''pw'' (Finite 100) 0, Deposit 1 NaN 7] =
      snd (deposit_money 1 NaN 7 one_account)"
    by (simp add: run_def one_account_def)
  have dep: "deposit_money 1 NaN 7 one_account =
      (Inr None,
       \<lparr>view = \<lparr>users = [\<lparr>account_number = 1, full_name = ''A'', email = ''a@x.com'', phone = ''555'',
          password = ''pw'', balance = None, created_at = 0\<rparr>],
                transactions = [\<lparr>transaction_id = 1, txn_account_number = 1, transaction_type = ''Deposit'',
          amount = Finite 100, balance_after = Finite 100, transaction_date = 0\<rparr>],
                users_seq = 1, transactions_seq = 1\<rparr>,
        disk = \<lparr>users = [\<lparr>account_number = 1, full_name = ''A'', email = ''a@x.com'', phone = ''555'',
          password = ''pw'', balance = None, created_at = 0\<rparr>],
                transactions = [\<lparr>transaction_id = 1, txn_account_number = 1, transaction_type = ''Deposit'',
          amount = Finite 100, balance_after = Finite 100, transaction_date = 0\<rparr>],
                users_seq = 1, transactions_seq = 1\<rparr>\<rparr>)"
    by (simp add: one_account_eq deposit_money_def update_balance_def select_balance_def
        sql_add_def record_transaction_def commit_def Let_def)
  show ?thesis
    unfolding after using dep
    by (simp add: process_transaction_def last_transaction_def select_balance_def)
qed

text \<open>
  C8 at a registration with the initial deposit \<open>inf\<close> followed by a withdrawal of
  \<open>inf\<close>. Both pass the conditions of the claim (\<open>0 <= inf\<close>, \<open>0 < inf\<close>) and the checks
  of the screens. The guard \<open>current_balance < amount\<close> is false, \<open>inf - inf\<close> is NaN,
  the stored balance becomes \<open>NULL\<close>, no Withdrawal row is written, and the call
  reports success with the balance NaN.
\<close>

theorem withdraw_inf_leaves_null_balance:
  "list_all permitted [Register ''A'' ''a@x.com'' ''555'' ''pw'' PosInf 0, Withdraw 1 PosInf 7]
   \<and> select_balance 1 (view (run [Register ''A'' ''a@x.com'' ''555'' ''pw'' PosInf 0])) = Some (Some PosInf)
   \<and> fst (withdraw_money 1 PosInf 7 (run [Register ''A'' ''a@x.com'' ''555'' ''pw'' PosInf 0])) =
       Inr (Some NaN, ''Success'')
   \<and> select_balance 1 (view (run [Register ''A'' ''a@x.com'' ''555'' ''pw'' PosInf 0, Withdraw 1 PosInf 7])) =
       Some None
   \<and> select_balance 1 (disk (run [Register ''A'' ''a@x.com'' ''555'' ''pw'' PosInf 0, Withdraw 1 PosInf 7])) =
       Some None
   \<and> map transaction_type
         (transactions (view (run [Register ''A'' ''a@x.com'' ''555'' ''pw'' PosInf 0, Withdraw 1 PosInf 7]))) =
       [''Deposit'']"
proof -
  have reg: "run [Register ''A'' ''a@x.com'' ''555'' ''pw'' PosInf 0] =
      \<lparr>view = \<lparr>users = [\<lparr>account_number = 1, full_name = ''A'', email = ''a@x.com'', phone = ''555'',
          password = ''pw'', balance = Some PosInf, created_at = 0\<rparr>],
               transactions = [\<lparr>transaction_id = 1, txn_account_number = 1,
                                transaction_type = ''Deposit'', amount = PosInf,
                                balance_after = PosInf, transaction_date = 0\<rparr>],
               users_seq = 1, transactions_seq = 1\<rparr>,
       disk = \<lparr>users = [\<lparr>account_number = 1, full_name = ''A'', email = ''a@x.com'', phone = ''555'',
          password = ''pw'', balance = Some PosInf, created_at = 0\<rparr>],
               transactions = [], users_seq = 1, transactions_seq = 0\<rparr>\<rparr>"
    by (simp add: run_def register_user_def insert_user_def setup_database_def
        record_transaction_def commit_def next_rowid_def Let_def)
  have step: "run [Register ''A'' ''a@x.com'' ''555'' ''pw'' PosInf 0, Withdraw 1 PosInf 7] =
      snd (withdraw_money 1 PosInf 7 (run [Register ''A'' ''a@x.com'' ''555'' ''pw'' PosInf 0]))"
    by (simp add: run_def)
  have wd: "withdraw_money 1 PosInf 7 (run [Register ''A'' ''a@x.com'' ''555'' ''pw'' PosInf 0]) =
      (Inr (Some NaN, ''Success''),
       \<lparr>view = \<lparr>users = [\<lparr>account_number = 1, full_name = ''A'', email = ''a@x.com'', phone = ''555'',
          password = ''pw'', balance = None, created_at = 0\<rparr>],
                transactions = [\<lparr>transaction_id = 1, txn_account_number = 1,
                                 transaction_type = ''Deposit'', amount = PosInf,
                                 balance_after = PosInf, transaction_date = 0\<rparr>],
                users_seq = 1, transactions_seq = 1\<rparr>,
        disk = \<lparr>users = [\<lparr>account_number = 1, full_name = ''A'', email = ''a@x.com'', phone = ''555'',
          password = ''pw'', balance = None, created_at = 0\<rparr>],
                transactions = [\<lparr>transaction_id = 1, txn_account_number = 1,
                                 transaction_type = ''Deposit'', amount = PosInf,
                                 balance_after = PosInf, transaction_date = 0\<rparr>],
                users_seq = 1, transactions_seq = 1\<rparr>\<rparr>)"
    unfolding reg
    by (simp add: withdraw_money_def update_balance_def select_balance_def sql_sub_def
        fsub_def record_transaction_def commit_def Let_def)
  have sel: "select_balance 1 (view (run [Register ''A'' ''a@x.com'' ''555'' ''pw'' PosInf 0])) = Some (Some PosInf)"
    unfolding reg by (simp add: select_balance_def)
  have "select_balance 1 (view (snd (withdraw_money 1 PosInf 7
      (run [Register ''A'' ''a@x.com'' ''555'' ''pw'' PosInf 0])))) = Some None"
    and "select_balance 1 (disk (snd (withdraw_money 1 PosInf 7
      (run [Register ''A'' ''a@x.com'' ''555'' ''pw'' PosInf 0])))) = Some None"
    unfolding wd by (simp_all add: select_balance_def)
  with sel show ?thesis
    unfolding step wd by simp
qed

section \<open>The transaction history\<close>

lemma mset_insert_by_date: "mset (insert_by_date t rs) = add_mset t (mset rs)"
  by (induction rs) simp_all

lemma mset_order_by_date_desc: "mset (order_by_date_desc rs) = mset rs"
  unfolding order_by_date_desc_def by (induction rs) (simp_all add: mset_insert_by_date)

lemma set_insert_by_date: "set (insert_by_date t rs) = insert t (set rs)"
  by (induction rs) auto

lemma sorted_insert_by_date:
  "sorted_wrt (\<lambda>x y. transaction_date y \<le> transaction_date x) rs \<Longrightarrow>
     sorted_wrt (\<lambda>x y. transaction_date y \<le> transaction_date x) (insert_by_date t rs)"
  by (induction rs) (auto simp add: set_insert_by_date)

lemma sorted_order_by_date_desc:
  "sorted_wrt (\<lambda>x y. transaction_date y \<le> transaction_date x) (order_by_date_desc rs)"
  unfolding order_by_date_desc_def by (induction rs) (simp_all add: sorted_insert_by_date)

lemma two_accounts_eq:
  "two_accounts =
     \<lparr>view = \<lparr>users = [\<lparr>account_number = 1, full_name = ''A'', email = ''a@x.com'', phone = ''555'',
          password = ''pw'', balance = Some (Finite 100), created_at = 0\<rparr>,
                       \<lparr>account_number = 2, full_name = ''B'', email = ''b@x.com'', phone = ''777'',
          password = ''secret'', balance = Some (Finite 50), created_at = 3\<rparr>],
              transactions = [\<lparr>transaction_id = 1, txn_account_number = 1, transaction_type = ''Deposit'',
          amount = Finite 100, balance_after = Finite 100, transaction_date = 0\<rparr>,
                              \<lparr>transaction_id = 2, txn_account_number = 2, transaction_type = ''Deposit'',
          amount = Finite 50, balance_after = Finite 50, transaction_date = 3\<rparr>],
              users_seq = 2, transactions_seq = 2\<rparr>,
      disk = \<lparr>users = [\<lparr>account_number = 1, full_name = ''A'', email = ''a@x.com'', phone = ''555'',
          password = ''pw'', balance = Some (Finite 100), created_at = 0\<rparr>,
                       \<lparr>account_number = 2, full_name = ''B'', email = ''b@x.com'', phone = ''777'',
          password = ''secret'', balance = Some (Finite 50), created_at = 3\<rparr>],
              transactions = [\<lparr>transaction_id = 1, txn_account_number = 1, transaction_type = ''Deposit'',
          amount = Finite 100, balance_after = Finite 100, transaction_date = 0\<rparr>],
              users_seq = 2, transactions_seq = 1\<rparr>\<rparr>"
  by (simp add: two_accounts_def one_account_eq register_user_def insert_user_def
      record_transaction_def commit_def next_rowid_def Let_def)

lemma two_accounts_withdraw:
  "view (snd (withdraw_money 1 (Finite 40) 7 two_accounts)) =
     \<lparr>users = [\<lparr>account_number = 1, full_name = ''A'', email = ''a@x.com'', phone = ''555'',
          password = ''pw'', balance = Some (Finite 60), created_at = 0\<rparr>,
               \<lparr>account_number = 2, full_name = ''B'', email = ''b@x.com'', phone = ''777'',
          password = ''secret'', balance = Some (Finite 50), created_at = 3\<rparr>],
      transactions = [\<lparr>transaction_id = 1, txn_account_number = 1, transaction_type = ''Deposit'',
          amount = Finite 100, balance_after = Finite 100, transaction_date = 0\<rparr>,
                      \<lparr>transaction_id = 2, txn_account_number = 2, transaction_type = ''Deposit'',
          amount = Finite 50, balance_after = Finite 50, transaction_date = 3\<rparr>,
                      \<lparr>transaction_id = 3, txn_account_number = 1, transaction_type = ''Withdrawal'',
          amount = Finite 40, balance_after = Finite 60, transaction_date = 7\<rparr>],
      users_seq = 2, transactions_seq = 3\<rparr>"
proof -
  have "round_double (100 - 40) = Finite 60"
    by (simp add: double_eval)
  then show ?thesis
    by (simp add: two_accounts_eq withdraw_money_def select_balance_def update_balance_def
        sql_sub_def record_transaction_def commit_def next_rowid_def Let_def)
qed

text \<open>
  C9. \<open>get_transaction_history\<close> returns the selected columns of exactly the rows of
  \<open>transactions\<close> whose account number is the one asked for, each as often as it
  occurs, and in the returned list the date of every row is at least the date of
  every row behind it.
\<close>

theorem get_transaction_history_newest_first:
  "mset (get_transaction_history acct c) =
     image_mset selected_columns
       (filter_mset (\<lambda>t. txn_account_number t = acct) (mset (transactions (view c))))
   \<and> sorted_wrt (\<lambda>(ty, amt, bal, date) (ty', amt', bal', date'). date' \<le> date)
        (get_transaction_history acct c)"
proof
  show "mset (get_transaction_history acct c) =
      image_mset selected_columns
        (filter_mset (\<lambda>t. txn_account_number t = acct) (mset (transactions (view c))))"
    by (simp add: get_transaction_history_def mset_order_by_date_desc)
  have "sorted_wrt (\<lambda>x y. transaction_date y \<le> transaction_date x)
      (order_by_date_desc (filter (\<lambda>t. txn_account_number t = acct) (transactions (view c))))"
    by (rule sorted_order_by_date_desc)
  then show "sorted_wrt (\<lambda>(ty, amt, bal, date) (ty', amt', bal', date'). date' \<le> date)
      (get_transaction_history acct c)"
    by (simp add: get_transaction_history_def sorted_wrt_map selected_columns_def)
qed

theorem get_transaction_history_newest_first_witness:
  "get_transaction_history 1 (snd (withdraw_money 1 (Finite 40) 7 two_accounts)) =
     [(''Withdrawal'', Finite 40, Finite 60, 7), (''Deposit'', Finite 100, Finite 100, 0)]
   \<and> get_transaction_history 2 (snd (withdraw_money 1 (Finite 40) 7 two_accounts)) =
     [(''Deposit'', Finite 50, Finite 50, 3)]
   \<and> mset (get_transaction_history 2 (snd (withdraw_money 1 (Finite 40) 7 two_accounts))) =
     {#(''Deposit'', Finite 50, Finite 50, 3)#}"
proof -
  let ?c = "snd (withdraw_money 1 (Finite 40) 7 two_accounts)"
  have one: "get_transaction_history 1 ?c =
      [(''Withdrawal'', Finite 40, Finite 60, 7), (''Deposit'', Finite 100, Finite 100, 0)]"
    unfolding get_transaction_history_def two_accounts_withdraw
    by (simp add: order_by_date_desc_def selected_columns_def)
  have two: "get_transaction_history 2 ?c = [(''Deposit'', Finite 50, Finite 50, 3)]"
    unfolding get_transaction_history_def two_accounts_withdraw
    by (simp add: order_by_date_desc_def selected_columns_def)
  from get_transaction_history_newest_first [of 2 ?c]
  have "mset (get_transaction_history 2 ?c) = {#(''Deposit'', Finite 50, Finite 50, 3)#}"
    unfolding two_accounts_withdraw by (simp add: selected_columns_def)
  with one two show ?thesis by simp
qed

section \<open>Calls with finite amounts\<close>

text \<open>
  The stores of the section on amounts that are not finite are reached with an
  amount that is NaN or infinite. When every amount of every call is finite, each
  call that writes a balance records that same balance, and a withdrawal never
  takes more than there is.
\<close>

lemma le_fold_max: "x \<in> set ids \<Longrightarrow> x \<le> fold max ids (seq::nat)"
proof (induction ids arbitrary: seq)
  case Nil then show ?case by simp
next
  case (Cons i ids)
  have mono: "s \<le> fold max js (s::nat)" for s js
    by (induction js arbitrary: s) (auto intro: order_trans[OF max.cobounded2])
  show ?case
  proof (cases "x = i")
    case True
    have "i \<le> max i seq" by simp
    also have "\<dots> \<le> fold max ids (max i seq)" by (rule mono)
    finally show ?thesis using True by simp
  next
    case False
    with Cons show ?thesis by simp
  qed
qed

lemma next_rowid_fresh: "next_rowid ids seq \<notin> set ids"
  using le_fold_max [of "next_rowid ids seq" ids seq] by (auto simp add: next_rowid_def)

lemma account_numbers_update_balance [simp]:
  "map account_number (users (update_balance acct expr d)) = map account_number (users d)"
  by (simp add: update_balance_def comp_def)

lemma last_transaction_update_balance [simp]:
  "last_transaction x (update_balance acct expr d) = last_transaction x d"
  by (simp add: last_transaction_def)

lemma users_record_transaction [simp]:
  "users (record_transaction acct ty amt bal now d) = users d"
  by (simp add: record_transaction_def Let_def split: option.splits)

lemma last_transaction_record_transaction:
  assumes "amt \<noteq> NaN" and "bal \<noteq> NaN"
    and "last_transaction x (record_transaction acct ty amt (Some bal) now d) = Some t"
  shows "if x = acct then balance_after t = bal else last_transaction x d = Some t"
  using assms(3)
  by (auto simp add: last_transaction_def record_transaction_stored [OF assms(1,2)]
      split: list.splits if_splits)

lemma txn_accounts_record_transaction:
  "txn_account_number ` set (transactions (record_transaction acct ty amt bal now d))
     \<subseteq> insert acct (txn_account_number ` set (transactions d))"
  by (auto simp add: record_transaction_def Let_def split: option.splits)

lemma select_balance_None_iff:
  "select_balance x d = None \<longleftrightarrow> x \<notin> set (map account_number (users d))"
  by (auto simp add: select_balance_def find_None_iff)

lemma select_balance_in_users:
  assumes "select_balance acct d = Some b"
  shows "\<exists>u \<in> set (users d). account_number u = acct \<and> balance u = b"
proof -
  from assms obtain u where "find (\<lambda>v. account_number v = acct) (users d) = Some u"
    and "b = balance u"
    by (auto simp add: select_balance_def)
  then show ?thesis
    by (auto simp add: find_Some_iff)
qed

lemma consistent_record_update:
  assumes "consistent d" and "select_balance acct d = Some (Some b)"
    and "amt \<noteq> NaN" and "\<And>v. v \<noteq> NaN \<Longrightarrow> \<exists>w. expr (Some v) = Some w \<and> w \<noteq> NaN"
    and "expr (Some b) = Some b'"
  shows "consistent (record_transaction acct ty amt (Some b') now (update_balance acct expr d))"
  unfolding consistent_def
proof (intro conjI allI impI ballI)
  let ?d1 = "update_balance acct expr d"
  let ?d' = "record_transaction acct ty amt (Some b') now ?d1"
  from assms(1) select_balance_in_users [OF assms(2)] have "b \<noteq> NaN"
    by (auto simp add: consistent_def)
  with assms(4) [of b] assms(5) have b': "b' \<noteq> NaN" by auto
  show "distinct (map account_number (users ?d'))"
    using assms(1) by (simp add: consistent_def)
  have "acct \<in> set (map account_number (users d))"
    using assms(2) select_balance_None_iff [of acct d] by auto
  with txn_accounts_record_transaction [of acct ty amt "Some b'" now ?d1] assms(1)
  show "set (map txn_account_number (transactions ?d')) \<subseteq> set (map account_number (users ?d'))"
    by (auto simp add: consistent_def)
  show "\<exists>v. balance u = Some v \<and> v \<noteq> NaN" if "u \<in> set (users ?d')" for u
  proof -
    from that obtain u0 where u0: "u0 \<in> set (users d)"
      and u: "u = (if account_number u0 = acct then u0\<lparr>balance := expr (balance u0)\<rparr> else u0)"
      by (auto simp add: update_balance_def)
    from assms(1) u0 obtain v where "balance u0 = Some v" "v \<noteq> NaN"
      by (auto simp add: consistent_def)
    with assms(4) [of v] u show ?thesis by auto
  qed
  fix x t
  assume "last_transaction x ?d' = Some t"
  from last_transaction_record_transaction [OF assms(3) b' this] assms(1,2,5)
  show "select_balance x ?d' = Some (Some (balance_after t))"
    by (auto simp add: select_balance_update_balance consistent_def split: if_splits)
qed

lemma find_account_append:
  "find (\<lambda>u. account_number u = x) (us @ [v]) =
     (case find (\<lambda>u. account_number u = x) us of
        None \<Rightarrow> if account_number v = x then Some v else None
      | Some u \<Rightarrow> Some u)"
  by (induction us) auto

lemma consistent_insert_user:
  assumes "consistent d" and "insert_user name mail tel pw (Finite x) now d = Inr (n, d')"
  shows "consistent d'" and "select_balance n d' = Some (Some (Finite x))"
proof -
  let ?n = "next_rowid (map account_number (users d)) (users_seq d)"
  let ?u = "\<lparr>account_number = ?n, full_name = name, email = mail, phone = tel,
             password = pw, balance = Some (Finite x), created_at = now\<rparr>"
  from assms(2) have n: "n = ?n"
    and d': "d' = d\<lparr>users := users d @ [?u], users_seq := ?n\<rparr>"
    by (auto simp add: insert_user_def Let_def split: if_splits)
  have fresh: "n \<notin> set (map account_number (users d))"
    unfolding n by (rule next_rowid_fresh)
  then have none: "select_balance n d = None"
    by (simp add: select_balance_None_iff)
  have sel: "select_balance y d' = (if y = n then Some (Some (Finite x)) else select_balance y d)"
    for y
    using none
    by (auto simp add: d' n select_balance_def find_account_append split: option.splits)
  then show "select_balance n d' = Some (Some (Finite x))" by simp
  have no_rows: "n \<notin> txn_account_number ` set (transactions d)"
    using assms(1) fresh by (auto simp add: consistent_def)
  have last: "last_transaction y d' = last_transaction y d" for y
    by (simp add: last_transaction_def d')
  show "consistent d'"
    unfolding consistent_def
  proof (intro conjI allI impI ballI)
    show "distinct (map account_number (users d'))"
      using assms(1) fresh by (simp add: consistent_def d' n)
    show "set (map txn_account_number (transactions d')) \<subseteq> set (map account_number (users d'))"
      using assms(1) by (auto simp add: consistent_def d')
    show "\<exists>v. balance u = Some v \<and> v \<noteq> NaN" if "u \<in> set (users d')" for u
      using that assms(1) by (auto simp add: consistent_def d')
    fix y t
    assume lt: "last_transaction y d' = Some t"
    then have old: "last_transaction y d = Some t" by (simp add: last)
    then have "filter (\<lambda>t. txn_account_number t = y) (transactions d) \<noteq> []"
      by (auto simp add: last_transaction_def)
    then have "y \<in> txn_account_number ` set (transactions d)"
      by (auto simp add: filter_empty_conv)
    with no_rows have "y \<noteq> n" by auto
    with old assms(1) show "select_balance y d' = Some (Some (balance_after t))"
      by (simp add: sel consistent_def)
  qed
qed

lemma update_balance_absent:
  assumes "select_balance acct d = None"
  shows "update_balance acct expr d = d"
proof -
  from assms
  have "map (\<lambda>u. if account_number u = acct then u\<lparr>balance := expr (balance u)\<rparr> else u)
               (users d) = users d"
    by (intro map_idI) (auto simp add: select_balance_None_iff)
  then show ?thesis
    by (simp add: update_balance_def)
qed

lemma consistent_setup_database: "consistent (view setup_database)"
  by (simp add: consistent_def setup_database_def last_transaction_def Let_def)

lemma fadd_Finite_not_NaN: "v \<noteq> NaN \<Longrightarrow> fadd v (Finite a) \<noteq> NaN"
  by (cases v) simp_all

lemma fsub_Finite_not_NaN: "v \<noteq> NaN \<Longrightarrow> fsub v (Finite a) \<noteq> NaN"
  by (cases v) (simp_all add: fsub_def)

lemma consistent_balance_known:
  assumes "consistent d" and "select_balance acct d = Some b"
  shows "\<exists>v. b = Some v \<and> v \<noteq> NaN"
  using assms(1) select_balance_in_users [OF assms(2)] by (auto simp add: consistent_def)

lemma consistent_register_user:
  assumes "consistent (view c)"
  shows "consistent (view (snd (register_user name mail tel pw (Finite x) now c)))"
proof (cases "insert_user name mail tel pw (Finite x) now (view c)")
  case (Inl e)
  with assms show ?thesis
    by (simp add: register_user_def split: sqlite_error.splits)
next
  case (Inr r)
  obtain n d' where r: "r = (n, d')" by (cases r)
  note ins = consistent_insert_user [OF assms Inr [unfolded r]]
  have "map (\<lambda>u. if account_number u = n then u\<lparr>balance := balance u\<rparr> else u) (users d') =
      users d'"
    by (intro map_idI) simp
  then have same: "update_balance n (\<lambda>b. b) d' = d'"
    by (simp add: update_balance_def)
  have "consistent (record_transaction n ''Deposit'' (Finite x) (Some (Finite x)) now
      (update_balance n (\<lambda>b. b) d'))"
    by (rule consistent_record_update [OF ins(1) ins(2)]) simp_all
  with ins(1) show ?thesis
    by (simp add: register_user_def Inr r commit_def Let_def same)
qed

lemma consistent_deposit_money:
  assumes "consistent (view c)"
  shows "consistent (view (snd (deposit_money acct (Finite a) now c)))"
proof (cases "select_balance acct (view c)")
  case None
  then show ?thesis
    using assms by (simp add: deposit_money_def update_balance_absent)
next
  case (Some b)
  from consistent_balance_known [OF assms Some] obtain v where v: "b = Some v" "v \<noteq> NaN"
    by auto
  let ?expr = "\<lambda>b. sql_add b (bind_float (Finite a))"
  have "consistent (record_transaction acct ''Deposit'' (Finite a) (Some (fadd v (Finite a))) now
      (update_balance acct ?expr (view c)))"
  proof (rule consistent_record_update [OF assms Some [unfolded v(1)]])
    show "\<exists>w. ?expr (Some u) = Some w \<and> w \<noteq> NaN" if "u \<noteq> NaN" for u
      using fadd_Finite_not_NaN [OF that, of a] by (simp add: sql_add_def bind_float_def)
    show "?expr (Some v) = Some (fadd v (Finite a))"
      using fadd_Finite_not_NaN [OF v(2), of a] by (simp add: sql_add_def bind_float_def)
  qed simp
  moreover have "select_balance acct (update_balance acct ?expr (view c)) =
      Some (Some (fadd v (Finite a)))"
    using Some v fadd_Finite_not_NaN [OF v(2), of a]
    by (simp add: select_balance_update_balance sql_add_def bind_float_def)
  ultimately show ?thesis
    by (simp add: deposit_money_def commit_def Let_def)
qed

lemma consistent_withdraw_money:
  assumes "consistent (view c)"
  shows "consistent (view (snd (withdraw_money acct (Finite a) now c)))"
proof (cases "select_balance acct (view c)")
  case None
  then show ?thesis
    using assms by (simp add: withdraw_money_def)
next
  case (Some b)
  from consistent_balance_known [OF assms Some] obtain v where v: "b = Some v" "v \<noteq> NaN"
    by auto
  let ?expr = "\<lambda>b. sql_sub b (bind_float (Finite a))"
  have "consistent (record_transaction acct ''Withdrawal'' (Finite a) (Some (fsub v (Finite a))) now
      (update_balance acct ?expr (view c)))"
  proof (rule consistent_record_update [OF assms Some [unfolded v(1)]])
    show "\<exists>w. ?expr (Some u) = Some w \<and> w \<noteq> NaN" if "u \<noteq> NaN" for u
      using fsub_Finite_not_NaN [OF that, of a] by (simp add: sql_sub_def bind_float_def)
    show "?expr (Some v) = Some (fsub v (Finite a))"
      using fsub_Finite_not_NaN [OF v(2), of a] by (simp add: sql_sub_def bind_float_def)
  qed simp
  with assms Some v show ?thesis
    by (simp add: withdraw_money_def commit_def Let_def)
qed

lemma consistent_perform:
  "consistent (view c) \<Longrightarrow> finite_call k \<Longrightarrow> consistent (view (perform k c))"
  by (cases k)
    (auto simp add: consistent_register_user consistent_deposit_money consistent_withdraw_money)

lemma consistent_fold_perform:
  "consistent (view c) \<Longrightarrow> list_all finite_call calls \<Longrightarrow>
     consistent (view (fold perform calls c))"
  by (induction calls arbitrary: c) (simp_all add: consistent_perform)

lemma consistent_run: "list_all finite_call calls \<Longrightarrow> consistent (view (run calls))"
  unfolding run_def by (rule consistent_fold_perform) (rule consistent_setup_database)

text \<open>
  After any sequence of calls with finite amounts on a fresh store, an account that
  has a transaction has, as its stored balance, the \<open>balance_after\<close> of the
  transaction of it that was inserted last.
\<close>

lemma last_transaction_shows_balance_of_finite_calls:
  assumes "list_all finite_call calls"
    and "last_transaction acct (view (run calls)) = Some t"
  shows "select_balance acct (view (run calls)) = Some (Some (balance_after t))"
  using consistent_run [OF assms(1)] assms(2) by (simp add: consistent_def)

lemma scale2_pos: "0 < scale2 k"
  by (simp add: scale2_def)

lemma round_half_even_nonneg: "0 \<le> y \<Longrightarrow> 0 \<le> round_half_even y"
proof -
  assume "0 \<le> y"
  then have "0 \<le> \<lfloor>y\<rfloor>" by simp
  then show ?thesis
    by (simp add: round_half_even_def Let_def)
qed

lemma round_double_nonneg:
  assumes "0 \<le> x"
  shows "flt_le (Finite 0) (round_double x)"
proof (cases "x = 0")
  case True
  then show ?thesis by (simp add: round_double_def)
next
  case False
  with assms have pos: "0 < x" by simp
  let ?q = "scale2 (max (exponent_of x) (- 1022) - 52)"
  have "0 \<le> x / ?q"
    using assms scale2_pos [of "max (exponent_of x) (- 1022) - 52"] by simp
  then have "0 \<le> round_half_even (x / ?q)"
    by (rule round_half_even_nonneg)
  then have "0 \<le> of_int (round_half_even (x / ?q)) * ?q"
    using scale2_pos [of "max (exponent_of x) (- 1022) - 52"] by simp
  with pos show ?thesis
    by (simp add: round_double_def Let_def)
qed

lemma fadd_nonneg:
  assumes "flt_le (Finite 0) v" and "0 \<le> a"
  shows "flt_le (Finite 0) (fadd v (Finite a))"
  using assms by (cases v) (simp_all add: round_double_nonneg)

lemma fsub_nonneg:
  assumes "flt_le (Finite 0) v" and "\<not> flt_less v (Finite a)"
  shows "flt_le (Finite 0) (fsub v (Finite a))"
  using assms by (cases v) (simp_all add: round_double_nonneg fsub_def)

lemma flt_le_not_NaN: "flt_le (Finite 0) v \<Longrightarrow> v \<noteq> NaN"
  by (cases v) simp_all

lemma solvent_record_transaction [simp]:
  "solvent (record_transaction acct ty amt bal now d) = solvent d"
  by (simp add: solvent_def)

lemma select_balance_of_row:
  assumes "distinct (map account_number us)" and "u \<in> set us"
  shows "find (\<lambda>v. account_number v = account_number u) us = Some u"
  using assms by (induction us) (auto simp add: rev_image_eqI)

lemma solvent_update_balance:
  assumes "solvent d" and "distinct (map account_number (users d))"
    and "select_balance acct d = Some (Some v)"
    and "expr (Some v) = Some w" and "flt_le (Finite 0) w"
  shows "solvent (update_balance acct expr d)"
proof -
  have "expr (balance u) = Some w" if "u \<in> set (users d)" and "account_number u = acct" for u
  proof -
    from select_balance_of_row [OF assms(2) that(1)] that(2) assms(3)
    have "balance u = Some v" by (simp add: select_balance_def)
    with assms(4) show ?thesis by simp
  qed
  with assms(1,5) show ?thesis
    by (auto simp add: solvent_def update_balance_def list_all_iff)
qed

lemma solvent_select_balance:
  assumes "solvent d" and "select_balance acct d = Some b"
  shows "\<exists>v. b = Some v \<and> flt_le (Finite 0) v"
  using assms(1) select_balance_in_users [OF assms(2)]
  by (auto simp add: solvent_def list_all_iff split: option.splits)

lemma solvent_perform:
  assumes "solvent (view c)" and "consistent (view c)" and "permitted k" and "finite_call k"
  shows "solvent (view (perform k c))"
proof (cases k)
  case (Register name mail tel pw dep now)
  from assms(3,4) obtain x where dep: "dep = Finite x" and x: "0 \<le> x"
    by (auto simp add: Register)
  show ?thesis
  proof (cases "insert_user name mail tel pw dep now (view c)")
    case (Inl e)
    with assms(1) show ?thesis
      by (simp add: Register register_user_def split: sqlite_error.splits)
  next
    case (Inr r)
    obtain n d' where r: "r = (n, d')" by (cases r)
    from Inr r assms(1) x have "solvent d'"
      by (auto simp add: solvent_def insert_user_def dep Let_def split: if_splits)
    then show ?thesis
      by (simp add: Register register_user_def Inr r commit_def Let_def)
  qed
next
  case (Deposit acct amt now)
  from assms(3,4) obtain a where amt: "amt = Finite a" and a: "0 < a"
    by (auto simp add: Deposit)
  show ?thesis
  proof (cases "select_balance acct (view c)")
    case None
    with assms(1) show ?thesis
      by (simp add: Deposit deposit_money_def update_balance_absent)
  next
    case (Some b)
    from solvent_select_balance [OF assms(1) Some] obtain v
      where v: "b = Some v" "flt_le (Finite 0) v" by auto
    let ?expr = "\<lambda>b. sql_add b (bind_float (Finite a))"
    have w: "flt_le (Finite 0) (fadd v (Finite a))"
      using fadd_nonneg [OF v(2), of a] a by simp
    then have e: "?expr (Some v) = Some (fadd v (Finite a))"
      using flt_le_not_NaN [OF w] by (simp add: sql_add_def bind_float_def)
    from assms(2) have "distinct (map account_number (users (view c)))"
      by (simp add: consistent_def)
    from solvent_update_balance [where expr = ?expr, OF assms(1) this Some [unfolded v(1)] e w]
    show ?thesis
      by (simp add: Deposit amt deposit_money_def commit_def Let_def split: option.splits)
  qed
next
  case (Withdraw acct amt now)
  from assms(3,4) obtain a where amt: "amt = Finite a" and a: "0 < a"
    by (auto simp add: Withdraw)
  show ?thesis
  proof (cases "select_balance acct (view c)")
    case None
    with assms(1) show ?thesis
      by (simp add: Withdraw withdraw_money_def)
  next
    case (Some b)
    from solvent_select_balance [OF assms(1) Some] obtain v
      where v: "b = Some v" "flt_le (Finite 0) v" by auto
    show ?thesis
    proof (cases "flt_less v (Finite a)")
      case True
      with Some v assms(1) show ?thesis
        by (simp add: Withdraw amt withdraw_money_def)
    next
      case False
      let ?expr = "\<lambda>b. sql_sub b (bind_float (Finite a))"
      have w: "flt_le (Finite 0) (fsub v (Finite a))"
        by (rule fsub_nonneg [OF v(2) False])
      then have e: "?expr (Some v) = Some (fsub v (Finite a))"
        using flt_le_not_NaN [OF w] by (simp add: sql_sub_def bind_float_def)
      from assms(2) have "distinct (map account_number (users (view c)))"
        by (simp add: consistent_def)
      from solvent_update_balance [where expr = ?expr, OF assms(1) this Some [unfolded v(1)] e w] Some v False
      show ?thesis
        by (simp add: Withdraw amt withdraw_money_def commit_def Let_def)
    qed
  qed
qed

lemma solvent_fold_perform:
  "solvent (view c) \<Longrightarrow> consistent (view c) \<Longrightarrow> list_all permitted calls \<Longrightarrow>
     list_all finite_call calls \<Longrightarrow> solvent (view (fold perform calls c))"
  by (induction calls arbitrary: c) (simp_all add: solvent_perform consistent_perform)

text \<open>
  After any sequence of calls on a fresh store in which every initial deposit is
  finite and at least 0 and every amount deposited or withdrawn is finite and
  positive, no balance is \<open>NULL\<close> and every balance is at least 0 (it can be \<open>inf\<close>,
  when deposits overflow).
\<close>

lemma balance_never_negative_of_finite_calls:
  assumes "list_all finite_call calls" and "list_all permitted calls"
    and "u \<in> set (users (view (run calls)))"
  shows "\<exists>v. balance u = Some v \<and> flt_le (Finite 0) v"
proof -
  have "solvent (view setup_database)"
    by (simp add: solvent_def setup_database_def Let_def)
  from solvent_fold_perform [OF this consistent_setup_database assms(2,1)] assms(3)
  show ?thesis
    by (auto simp add: run_def solvent_def list_all_iff split: option.splits)
qed

end
